theory Spec2Isabelle
  imports Complex_Main "HOL-Library.AList" "HOL-Library.Sublist"
begin

section \<open>JavaScript values\<close>

text \<open>
  The values the Stage component of \<^verbatim>\<open>src/stage/index.js\<close> handles. An object is a
  reference together with its own enumerable properties in key order; a function is a
  reference. \<open>Num\<close> holds the finite numbers and \<open>NaN\<close> is apart, because \<open>NaN\<close> is
  falsy and differs from itself under \<^verbatim>\<open>!==\<close> (the infinities, which behave here as any
  non-zero number does, are left out).
\<close>

datatype jsval =
    Undefined
  | Null
  | Bool bool
  | Num real
  | NaN
  | Str string
  | Fun nat
  | Obj nat "(string \<times> jsval) list"

type_synonym jsobj = "(string \<times> jsval) list"

datatype error = TypeError

text \<open>Truthiness, as \<^verbatim>\<open>if (v)\<close>, \<^verbatim>\<open>!v\<close> and \<^verbatim>\<open>v && w\<close> read a value.\<close>

fun truthy :: "jsval \<Rightarrow> bool" where
  "truthy Undefined = False"
| "truthy Null = False"
| "truthy (Bool b) = b"
| "truthy (Num r) = (r \<noteq> 0)"
| "truthy NaN = False"
| "truthy (Str s) = (s \<noteq> [])"
| "truthy (Fun f) = True"
| "truthy (Obj r fs) = True"

text \<open>
  Strict equality \<^verbatim>\<open>===\<close>: by value on primitives (\<open>NaN\<close> equals nothing), by reference
  on objects and functions.
\<close>

fun strict_eq :: "jsval \<Rightarrow> jsval \<Rightarrow> bool" where
  "strict_eq NaN w = False"
| "strict_eq v NaN = False"
| "strict_eq (Obj r fs) (Obj r' fs') = (r = r')"
| "strict_eq v w = (v = w)"

definition strict_neq :: "jsval \<Rightarrow> jsval \<Rightarrow> bool" where
  "strict_neq v w = (\<not> strict_eq v w)"

text \<open>\<^verbatim>\<open>o[k]\<close> on the properties of an object: \<^verbatim>\<open>undefined\<close> for a key it does not have.\<close>

definition lookup :: "jsobj \<Rightarrow> string \<Rightarrow> jsval" where
  "lookup fs k = (case map_of fs k of None \<Rightarrow> Undefined | Some v \<Rightarrow> v)"

text \<open>
  \<^verbatim>\<open>v.k\<close> throws a TypeError on \<^verbatim>\<open>undefined\<close> and \<^verbatim>\<open>null\<close>. The Stage reads only the
  keys \<^verbatim>\<open>resolution\<close> and \<^verbatim>\<open>autoDensity\<close> this way, which no primitive and no function
  has: there the result is \<^verbatim>\<open>undefined\<close>.
\<close>

fun member :: "jsval \<Rightarrow> string \<Rightarrow> error + jsval" where
  "member Undefined k = Inl TypeError"
| "member Null k = Inl TypeError"
| "member (Obj r fs) k = Inr (lookup fs k)"
| "member v k = Inr Undefined"

text \<open>Optional chaining \<^verbatim>\<open>v?.k\<close>: \<^verbatim>\<open>undefined\<close> where \<^verbatim>\<open>v.k\<close> would throw.\<close>

definition opt_member :: "jsval \<Rightarrow> string \<Rightarrow> jsval" where
  "opt_member v k = (case member v k of Inl e \<Rightarrow> Undefined | Inr w \<Rightarrow> w)"

text \<open>
  The own enumerable properties an object spread \<^verbatim>\<open>{...v}\<close> copies: those of an object,
  the indexed characters of a string, none of any other value.
\<close>

fun digits :: "nat \<Rightarrow> string" where
  "digits n =
     (if n < 10 then [char_of (48 + n)]
      else digits (n div 10) @ [char_of (48 + n mod 10)])"

fun own_entries :: "jsval \<Rightarrow> jsobj" where
  "own_entries (Obj r fs) = fs"
| "own_entries (Str s) = map (\<lambda>i. (digits i, Str [s ! i])) [0..<length s]"
| "own_entries v = []"

text \<open>
  An object literal \<^verbatim>\<open>{...o, k: v}\<close> lists its properties from left to right, a later one
  replacing the value of an earlier one of the same key.
\<close>

definition spread :: "jsobj \<Rightarrow> jsobj \<Rightarrow> jsobj" where
  "spread acc fs = fold (\<lambda>(k, v) all. AList.update k v all) fs acc"

section \<open>The canvas properties\<close>

text \<open>The keys of \<^verbatim>\<open>propTypes\<close> (lines 32 to 88), in the order of the literal.\<close>

definition propTypes_keys :: "string list" where
  "propTypes_keys =
     [''width'', ''height'', ''onMount'', ''onUnmount'', ''raf'',
      ''renderOnComponentChange'', ''children'', ''options'']"

text \<open>
  \<^verbatim>\<open>getCanvasProps\<close> (lines 101 to 107). \<^verbatim>\<open>PROPS_DISPLAY_OBJECT\<close> is imported from
  \<^verbatim>\<open>../utils/props\<close>; its keys are the parameter \<open>display_keys\<close>. \<^verbatim>\<open>Object.keys(props)\<close>
  is \<open>map fst props\<close>.
\<close>

definition getCanvasProps :: "string list \<Rightarrow> jsobj \<Rightarrow> jsobj" where
  "getCanvasProps display_keys props =
     (let reserved = propTypes_keys @ display_keys
      in foldl (\<lambda>all prop. AList.update prop (lookup props prop) all) []
           (filter (\<lambda>p. p \<notin> set reserved) (map fst props)))"

section \<open>The Stage component\<close>

text \<open>
  The props of a Stage, typed as \<^verbatim>\<open>propTypes\<close> declares them: \<^verbatim>\<open>raf\<close> and
  \<^verbatim>\<open>renderOnComponentChange\<close> are booleans, \<^verbatim>\<open>onMount\<close> and \<^verbatim>\<open>onUnmount\<close> are functions
  (held by reference; a call of one is recorded and returns). \<^verbatim>\<open>width\<close>, \<^verbatim>\<open>height\<close>,
  \<^verbatim>\<open>children\<close> and \<^verbatim>\<open>options\<close> are only compared, read and passed on, and stay values.
\<close>

record props =
  width :: jsval
  height :: jsval
  onMount :: nat
  onUnmount :: nat
  raf :: bool
  renderOnComponentChange :: bool
  children :: jsval
  options :: jsval

text \<open>\<^verbatim>\<open>noop\<close> (line 10) and \<^verbatim>\<open>defaultProps\<close> (lines 90 to 97).\<close>

definition noop :: nat where
  "noop = 0"

definition defaultProps :: props where
  "defaultProps =
     \<lparr>width = Num 800, height = Num 600, onMount = noop, onUnmount = noop,
      raf = True, renderOnComponentChange = True,
      children = Undefined, options = Undefined\<rparr>"

text \<open>\<^verbatim>\<open>hasAutoDensity\<close> (line 99).\<close>

definition hasAutoDensity :: "jsval \<Rightarrow> bool" where
  "hasAutoDensity dens = strict_neq dens (Bool False)"

text \<open>
  The part of a PIXI Application the Stage assigns to: the options it was constructed
  with, \<^verbatim>\<open>ticker.autoStart\<close>, \<^verbatim>\<open>renderer.resolution\<close>, \<^verbatim>\<open>renderer.plugins.interaction\<close> (the
  reference of the current manager) and \<^verbatim>\<open>view.style.width\<close> and \<^verbatim>\<open>view.style.height\<close>
  (\<open>Some w\<close> once the Stage has assigned \<^verbatim>\<open>w + 'px'\<close>).
\<close>

record application =
  app_id :: nat
  ctor_options :: jsobj
  ticker_autoStart :: bool
  renderer_resolution :: jsval
  interaction :: nat
  style_width :: "jsval option"
  style_height :: "jsval option"

text \<open>The bound methods of Stage instance \<open>n\<close> that are handed out as listeners.\<close>

datatype handler = RenderStageOf nat | UpdateSizeOf nat

text \<open>\<^verbatim>\<open><AppProvider value={this.app}>{children}</AppProvider>\<close>, what \<^verbatim>\<open>getChildren\<close> builds.\<close>

datatype element = AppProvider "nat option" jsval

text \<open>
  The calls the Stage makes on its collaborators (PIXI, the reconciler \<^verbatim>\<open>PixiFiber\<close>, the
  window, the console and the callbacks of its props), in the order it makes them.
  \<open>CreateContainer n c\<close> is \<^verbatim>\<open>PixiFiber.createContainer\<close> on the stage of application \<open>n\<close>
  returning container \<open>c\<close>; \<open>UpdateContainer el c\<close> is \<^verbatim>\<open>PixiFiber.updateContainer\<close> of an
  element, or of \<^verbatim>\<open>null\<close>, on container \<open>c\<close>; \<open>Call f a\<close> is the call of function \<open>f\<close> on
  \<^verbatim>\<open>this.app\<close>.
\<close>

datatype effect =
    NewApplication nat jsobj
  | TickerStart nat
  | TickerStop nat
  | CreateContainer nat nat
  | UpdateContainer "element option" nat
  | InjectDevtools
  | Call nat "nat option"
  | MatchMedia nat
  | AddListener nat handler
  | RemoveListener nat handler
  | AddEventListener string handler
  | RemoveEventListener string handler
  | InteractionDestroy nat
  | NewInteractionManager nat nat
  | Resize nat jsval jsval
  | Render nat
  | AppDestroy nat
  | ConsoleError jsval

text \<open>
  A Stage instance (\<open>self\<close> is its reference) with the fields of the class, and the
  environment it runs in: \<^verbatim>\<open>window.devicePixelRatio\<close>, whether \<^verbatim>\<open>window.matchMedia\<close> is
  there, the resolution a new renderer starts with, the event listeners registered on
  \<^verbatim>\<open>window\<close>, the calls made so far and the next unused reference.
\<close>

record stage =
  self :: nat
  props :: props
  canvas :: jsval
  mediaQuery :: "nat option"
  app :: "application option"
  mountNode :: "nat option"
  devicePixelRatio :: jsval
  matchMedia :: bool
  pixi_resolution :: jsval
  listeners :: "(string \<times> handler) set"
  trace :: "effect list"
  next_id :: nat

definition emit :: "effect \<Rightarrow> stage \<Rightarrow> stage" where
  "emit e st = st\<lparr>trace := trace st @ [e]\<rparr>"

definition and_then :: "error + 'a \<Rightarrow> ('a \<Rightarrow> error + 'b) \<Rightarrow> error + 'b" where
  "and_then r f = (case r of Inl e \<Rightarrow> Inl e | Inr x \<Rightarrow> f x)"

definition request_render :: string where
  "request_render = ''__REACT_PIXI_REQUEST_RENDER__''"

text \<open>\<^verbatim>\<open>resetInteractionManager\<close> (lines 212 to 215). Reading \<^verbatim>\<open>this.app.renderer\<close> throws while
  \<^verbatim>\<open>this.app\<close> is \<^verbatim>\<open>null\<close>.\<close>

definition resetInteractionManager :: "stage \<Rightarrow> error + stage" where
  "resetInteractionManager st =
     (case app st of
        None \<Rightarrow> Inl TypeError
      | Some a \<Rightarrow>
          Inr (st\<lparr>app := Some (a\<lparr>interaction := next_id st\<rparr>),
                  trace := trace st @
                    [InteractionDestroy (interaction a),
                     NewInteractionManager (next_id st) (app_id a)],
                  next_id := Suc (next_id st)\<rparr>))"

text \<open>\<^verbatim>\<open>updateSize\<close> (lines 189 to 203).\<close>

definition updateSize :: "stage \<Rightarrow> error + stage" where
  "updateSize st =
     (let p = props st
      in and_then
        (if \<not> truthy (opt_member (options p) ''resolution'')
         then (case app st of
                 None \<Rightarrow> Inl TypeError
               | Some a \<Rightarrow>
                   resetInteractionManager
                     (st\<lparr>app := Some (a\<lparr>renderer_resolution := devicePixelRatio st\<rparr>)\<rparr>))
         else Inr st)
        (\<lambda>st1. case app st1 of
           None \<Rightarrow> Inl TypeError
         | Some a \<Rightarrow>
             (let st2 = emit (Resize (app_id a) (width p) (height p)) st1
              in if hasAutoDensity (opt_member (options p) ''autoDensity'')
                 then Inr (st2\<lparr>app := Some (a\<lparr>style_width := Some (width p),
                                                style_height := Some (height p)\<rparr>)\<rparr>)
                 else Inr st2)))"

text \<open>\<^verbatim>\<open>renderStage\<close> (lines 205 to 210).\<close>

definition renderStage :: "stage \<Rightarrow> error + stage" where
  "renderStage st =
     (let p = props st
      in if \<not> raf p \<and> renderOnComponentChange p
         then (case app st of
                 None \<Rightarrow> Inl TypeError
               | Some a \<Rightarrow> Inr (emit (Render (app_id a)) st))
         else Inr st)"

text \<open>\<^verbatim>\<open>getChildren\<close> (lines 217 to 220).\<close>

definition getChildren :: "stage \<Rightarrow> element" where
  "getChildren st = AppProvider (map_option app_id (app st)) (children (props st))"

text \<open>
  The application of lines 117 to 125: \<^verbatim>\<open>new Application\<close> on the object literal
  \<^verbatim>\<open>{width, height, view: this._canvas, ...options, autoDensity: false}\<close>, then
  \<^verbatim>\<open>ticker.autoStart = false\<close>. It takes the next unused reference \<open>n\<close>, and its first
  interaction manager \<open>n + 1\<close>.
\<close>

definition newApplication :: "stage \<Rightarrow> application" where
  "newApplication st =
     (let p = props st
      in \<lparr>app_id = next_id st,
          ctor_options =
            AList.update ''autoDensity'' (Bool False)
              (spread [(''width'', width p), (''height'', height p), (''view'', canvas st)]
                 (own_entries (options p))),
          ticker_autoStart = False,
          renderer_resolution = pixi_resolution st,
          interaction = Suc (next_id st),
          style_width = None,
          style_height = None\<rparr>)"

text \<open>\<^verbatim>\<open>componentDidMount\<close> (lines 114 to 150).\<close>

definition componentDidMount :: "stage \<Rightarrow> error + stage" where
  "componentDidMount st =
     (let p = props st;
          n = next_id st;
          a = newApplication st;
          st1 = st\<lparr>app := Some a,
                   trace := trace st @
                     [NewApplication n (ctor_options a),
                      if raf p then TickerStart n else TickerStop n],
                   next_id := n + 2\<rparr>;
          c = next_id st1;
          st2 = st1\<lparr>mountNode := Some c,
                    trace := trace st1 @
                      [CreateContainer n c,
                       UpdateContainer (Some (getChildren st1)) c,
                       InjectDevtools,
                       Call (onMount p) (Some n)],
                    next_id := Suc c\<rparr>;
          st3 = (if hasAutoDensity (opt_member (options p) ''autoDensity'') \<and> matchMedia st2
                    \<and> \<not> truthy (opt_member (options p) ''resolution'')
                 then st2\<lparr>mediaQuery := Some (next_id st2),
                          trace := trace st2 @
                            [MatchMedia (next_id st2),
                             AddListener (next_id st2) (UpdateSizeOf (self st2))],
                          next_id := Suc (next_id st2)\<rparr>
                 else st2);
          st4 = (if renderOnComponentChange p \<and> \<not> raf p
                 then st3\<lparr>listeners :=
                            insert (request_render, RenderStageOf (self st3)) (listeners st3),
                          trace := trace st3 @
                            [AddEventListener request_render (RenderStageOf (self st3))]\<rparr>
                 else st3)
      in and_then (updateSize st4) renderStage)"

text \<open>
  \<^verbatim>\<open>componentDidUpdate\<close> (lines 152 to 187), called with \<^verbatim>\<open>this.props\<close> already the new
  props. Line 156 reads \<^verbatim>\<open>prevProps?.options.resolution\<close>: the \<^verbatim>\<open>?.\<close> guards \<^verbatim>\<open>prevProps\<close>,
  which React always supplies, and \<^verbatim>\<open>.resolution\<close> is read from \<^verbatim>\<open>prevProps.options\<close>
  unguarded, once \<^verbatim>\<open>options?.resolution\<close> is truthy. Line 165 reads
  \<^verbatim>\<open>prevProps.options?.resolution\<close>.
\<close>

definition componentDidUpdate :: "props \<Rightarrow> stage \<Rightarrow> error + stage" where
  "componentDidUpdate prevProps st =
     (let p = props st;
          res = opt_member (options p) ''resolution''
      in and_then
        (if truthy res
         then (case member (options prevProps) ''resolution'' of
                 Inl e \<Rightarrow> Inl e
               | Inr prev \<Rightarrow>
                   if strict_neq prev res
                   then (case app st of
                           None \<Rightarrow> Inl TypeError
                         | Some a \<Rightarrow>
                             resetInteractionManager
                               (st\<lparr>app := Some (a\<lparr>renderer_resolution := res\<rparr>)\<rparr>))
                   else Inr st)
         else Inr st)
        (\<lambda>st1. and_then
          (if strict_neq (height prevProps) (height p)
               \<or> strict_neq (width prevProps) (width p)
               \<or> strict_neq (opt_member (options prevProps) ''resolution'') res
           then updateSize st1
           else Inr st1)
        (\<lambda>st2. and_then
          (if raf prevProps \<noteq> raf p
           then (case app st2 of
                   None \<Rightarrow> Inl TypeError
                 | Some a \<Rightarrow>
                     Inr (emit (if raf p then TickerStart (app_id a)
                                else TickerStop (app_id a)) st2))
           else Inr st2)
        (\<lambda>st3. and_then
          (case mountNode st3 of
             None \<Rightarrow> Inl TypeError
           | Some c \<Rightarrow> Inr (emit (UpdateContainer (Some (getChildren st3)) c) st3))
        (\<lambda>st4.
           if strict_neq (width prevProps) (width p)
               \<or> strict_neq (height prevProps) (height p)
               \<or> raf prevProps \<noteq> raf p
               \<or> renderOnComponentChange prevProps \<noteq> renderOnComponentChange p
               \<or> strict_neq (options prevProps) (options p)
           then renderStage st4
           else Inr st4)))))"

text \<open>An update as React runs it: the new props are installed, then
  \<^verbatim>\<open>componentDidUpdate\<close> is called with the previous ones.\<close>

definition update :: "props \<Rightarrow> stage \<Rightarrow> error + stage" where
  "update newProps st = componentDidUpdate (props st) (st\<lparr>props := newProps\<rparr>)"

fun updates :: "props list \<Rightarrow> stage \<Rightarrow> error + stage" where
  "updates [] st = Inr st"
| "updates (p # ps) st = and_then (update p st) (updates ps)"

text \<open>\<^verbatim>\<open>componentDidCatch\<close> (lines 222 to 226).\<close>

definition componentDidCatch :: "jsval \<Rightarrow> jsval \<Rightarrow> stage \<Rightarrow> stage" where
  "componentDidCatch err errorInfo st =
     emit (ConsoleError errorInfo)
       (emit (ConsoleError err)
         (emit (ConsoleError (Str ''Error occurred in `Stage`.'')) st))"

text \<open>\<^verbatim>\<open>componentWillUnmount\<close> (lines 228 to 242). \<^verbatim>\<open>PixiFiber.updateContainer\<close> reads its
  container and throws on \<^verbatim>\<open>undefined\<close>, the value of \<^verbatim>\<open>this.mountNode\<close> before a mount.\<close>

definition componentWillUnmount :: "stage \<Rightarrow> error + stage" where
  "componentWillUnmount st =
     (let p = props st;
          st1 = emit (Call (onUnmount p) (map_option app_id (app st))) st;
          st2 = st1\<lparr>listeners := listeners st1 - {(request_render, RenderStageOf (self st1))},
                    trace := trace st1 @
                      [RemoveEventListener request_render (RenderStageOf (self st1))]\<rparr>
      in and_then
        (case mountNode st2 of
           None \<Rightarrow> Inl TypeError
         | Some c \<Rightarrow> Inr (emit (UpdateContainer None c) st2))
        (\<lambda>st3.
           let st4 = (case mediaQuery st3 of
                        None \<Rightarrow> st3
                      | Some m \<Rightarrow>
                          (emit (RemoveListener m (UpdateSizeOf (self st3))) st3)
                            \<lparr>mediaQuery := None\<rparr>)
           in and_then (renderStage st4)
                (\<lambda>st5. case app st5 of
                   None \<Rightarrow> Inl TypeError
                 | Some a \<Rightarrow> Inr (emit (AppDestroy (app_id a)) st5))))"

text \<open>A Stage is mounted once \<^verbatim>\<open>componentDidMount\<close> has set its application and its
  root container.\<close>

definition mounted :: "stage \<Rightarrow> bool" where
  "mounted st = (app st \<noteq> None \<and> mountNode st \<noteq> None)"

text \<open>The calls a lifecycle method added: those of the state it returns beyond those of
  the state it started from.\<close>

definition new_calls :: "stage \<Rightarrow> stage \<Rightarrow> effect list" where
  "new_calls st st' = drop (length (trace st)) (trace st')"

section \<open>Reading the calls of a lifecycle method\<close>

text \<open>The kinds of call the statements below select from the calls of a method.\<close>

fun is_Render :: "effect \<Rightarrow> bool" where
  "is_Render (Render n) = True"
| "is_Render e = False"

fun is_UpdateContainer :: "effect \<Rightarrow> bool" where
  "is_UpdateContainer (UpdateContainer el c) = True"
| "is_UpdateContainer e = False"

fun is_NewApplication :: "effect \<Rightarrow> bool" where
  "is_NewApplication (NewApplication n opts) = True"
| "is_NewApplication e = False"

text \<open>The calls a mount is read for: the root container, the commits and the callbacks.\<close>

fun mount_call :: "effect \<Rightarrow> bool" where
  "mount_call (CreateContainer n c) = True"
| "mount_call (UpdateContainer el c) = True"
| "mount_call (Call f a) = True"
| "mount_call e = False"

text \<open>The calls an unmount is read for: the callbacks, the removals of window listeners, the
  commits and the destructions of an application.\<close>

fun unmount_call :: "effect \<Rightarrow> bool" where
  "unmount_call (Call f a) = True"
| "unmount_call (RemoveEventListener k h) = True"
| "unmount_call (UpdateContainer el c) = True"
| "unmount_call (AppDestroy n) = True"
| "unmount_call e = False"

text \<open>The calls of \<^verbatim>\<open>updateSize\<close>, \<^verbatim>\<open>resetInteractionManager\<close> and the ticker: they touch
  neither the reconciler, nor the window, nor the callbacks, and draw nothing.\<close>

fun quiet_call :: "effect \<Rightarrow> bool" where
  "quiet_call (InteractionDestroy m) = True"
| "quiet_call (NewInteractionManager m n) = True"
| "quiet_call (Resize n w h) = True"
| "quiet_call (TickerStart n) = True"
| "quiet_call (TickerStop n) = True"
| "quiet_call e = False"

definition extends_quietly :: "stage \<Rightarrow> stage \<Rightarrow> bool" where
  "extends_quietly st st' =
     (map_option app_id (app st') = map_option app_id (app st)
      \<and> map_option ctor_options (app st') = map_option ctor_options (app st)
      \<and> props st' = props st \<and> self st' = self st \<and> mountNode st' = mountNode st
      \<and> mediaQuery st' = mediaQuery st \<and> listeners st' = listeners st
      \<and> (\<exists>evs. trace st' = trace st @ evs \<and> list_all quiet_call evs))"

text \<open>The calls a method made when it returned, none when it threw.\<close>

definition stage_calls :: "stage \<Rightarrow> error + stage \<Rightarrow> effect list option" where
  "stage_calls st r = (case r of Inl e \<Rightarrow> None | Inr st' \<Rightarrow> Some (new_calls st st'))"

text \<open>The application a method left when it returned.\<close>

definition result_app :: "error + stage \<Rightarrow> application option" where
  "result_app r = (case r of Inl e \<Rightarrow> None | Inr st' \<Rightarrow> app st')"

text \<open>
  The redraws the Stage makes after a commit: the calls of \<^verbatim>\<open>renderer.render\<close> that follow
  the first \<^verbatim>\<open>PixiFiber.updateContainer\<close> among the calls of a method. (A redraw that the
  reconciler asks for by the window event while it commits is the reconciler's, which is
  not part of \<^verbatim>\<open>src/stage/index.js\<close>.)
\<close>

definition redraws_after_commit :: "effect list \<Rightarrow> nat" where
  "redraws_after_commit evs =
     length (filter is_Render (tl (dropWhile (\<lambda>e. \<not> is_UpdateContainer e) evs)))"

text \<open>The condition of lines 178 to 184 under which \<^verbatim>\<open>componentDidUpdate\<close> calls
  \<^verbatim>\<open>renderStage\<close>.\<close>

definition props_changed :: "props \<Rightarrow> props \<Rightarrow> bool" where
  "props_changed prevProps p =
     (strict_neq (width prevProps) (width p)
      \<or> strict_neq (height prevProps) (height p)
      \<or> raf prevProps \<noteq> raf p
      \<or> renderOnComponentChange prevProps \<noteq> renderOnComponentChange p
      \<or> strict_neq (options prevProps) (options p))"

text \<open>A Stage holds the render-request listener when its own \<^verbatim>\<open>renderStage\<close> is registered
  on \<^verbatim>\<open>window\<close> for the event \<^verbatim>\<open>__REACT_PIXI_REQUEST_RENDER__\<close>.\<close>

definition holds_listener :: "stage \<Rightarrow> bool" where
  "holds_listener st = ((request_render, RenderStageOf (self st)) \<in> listeners st)"

section \<open>Example stages\<close>

text \<open>
  \<open>stage0\<close> is a Stage before its mount, with the default props but \<^verbatim>\<open>raf = false\<close>, in a
  window of device pixel ratio 2; \<open>stage1\<close> is the same Stage once mounted; \<open>stage2\<close> is
  \<open>stage0\<close> with \<^verbatim>\<open>options = {autoDensity: true}\<close>.
\<close>

definition stage0 :: stage where
  "stage0 =
     \<lparr>self = 1, props = defaultProps\<lparr>raf := False\<rparr>, canvas = Obj 2 [],
      mediaQuery = None, app = None, mountNode = None,
      devicePixelRatio = Num 2, matchMedia = True, pixi_resolution = Num 1,
      listeners = {}, trace = [], next_id = 10\<rparr>"

definition stage1 :: stage where
  "stage1 =
     \<lparr>self = 1, props = defaultProps\<lparr>raf := False\<rparr>, canvas = Obj 2 [],
      mediaQuery = Some 13,
      app = Some
        \<lparr>app_id = 10,
         ctor_options =
           [(''width'', Num 800), (''height'', Num 600), (''view'', Obj 2 []),
            (''autoDensity'', Bool False)],
         ticker_autoStart = False, renderer_resolution = Num 2, interaction = 14,
         style_width = Some (Num 800), style_height = Some (Num 600)\<rparr>,
      mountNode = Some 12,
      devicePixelRatio = Num 2, matchMedia = True, pixi_resolution = Num 1,
      listeners = {(request_render, RenderStageOf 1)},
      trace =
        [NewApplication 10
           [(''width'', Num 800), (''height'', Num 600), (''view'', Obj 2 []),
            (''autoDensity'', Bool False)],
         TickerStop 10, CreateContainer 10 12,
         UpdateContainer (Some (AppProvider (Some 10) Undefined)) 12,
         InjectDevtools, Call noop (Some 10), MatchMedia 13,
         AddListener 13 (UpdateSizeOf 1),
         AddEventListener request_render (RenderStageOf 1),
         InteractionDestroy 11, NewInteractionManager 14 10,
         Resize 10 (Num 800) (Num 600), Render 10],
      next_id = 15\<rparr>"

definition stage2 :: stage where
  "stage2 =
     stage0\<lparr>props := (props stage0)\<lparr>options := Obj 3 [(''autoDensity'', Bool True)]\<rparr>\<rparr>"

section \<open>The reconciliation core\<close>

text \<open>
  The Stage hands its children to \<^verbatim>\<open>PixiFiber\<close>, imported from \<^verbatim>\<open>../reconciler\<close>, which is not
  among the sources. What follows is that reconciler as sections 3 and 4 of the
  specification describe it.
\<close>

type_synonym kind = string



text \<open>Modelled from the spec: the adapter errors of sections 4.1 and 7 (absent from the
  sources).\<close>

datatype commit_error = UnknownNodeKindError kind | UnknownPropertyError kind string




text \<open>Modelled from the spec: \<^verbatim>\<open>applyProps\<close> of section 4.1 (absent from the sources) on one
  key. A key absent from the next props is reset to its default and leaves the snapshot; a
  key whose value did not change is not applied; a changed key is applied if the adapter
  recognises it, and is otherwise ignored with an \<^verbatim>\<open>UnknownPropertyError\<close>.\<close>

fun apply_key ::
  "string list \<Rightarrow> kind \<Rightarrow> jsobj \<Rightarrow> jsobj \<Rightarrow> string \<Rightarrow> commit_error list \<times> jsobj
     \<Rightarrow> commit_error list \<times> jsobj" where
  "apply_key known k prevProps nextProps name (errs, committed) =
     (case map_of nextProps name of
        None \<Rightarrow> (errs, AList.delete name committed)
      | Some v \<Rightarrow>
          if map_of prevProps name = Some v then (errs, committed)
          else if name \<in> set known then (errs, AList.update name v committed)
          else (errs @ [UnknownPropertyError k name], committed))"

text \<open>Modelled from the spec: \<^verbatim>\<open>applyProps(nativeHandle, prevProps, nextProps)\<close> of section
  4.1 and the key-by-key diff of section 4.3 (absent from the sources), over the keys of
  either side, each on its own. It returns the errors and the new committed snapshot.\<close>

definition applyProps ::
  "string list \<Rightarrow> kind \<Rightarrow> jsobj \<Rightarrow> jsobj \<Rightarrow> commit_error list \<times> jsobj" where
  "applyProps known k prevProps nextProps =
     fold (apply_key known k prevProps nextProps)
       (remdups (map fst prevProps @ map fst nextProps)) ([], prevProps)"















subsection \<open>Example trees\<close>






section \<open>Properties of the canvas properties\<close>

lemma map_of_foldl_update:
  "map_of (foldl (\<lambda>all prop. AList.update prop (f prop) all) acc ks) k =
     (if k \<in> set ks then Some (f k) else map_of acc k)"
  by (induction ks arbitrary: acc) (auto simp: update_conv')

lemma lookup_in_keys:
  "k \<in> fst ` set obj \<Longrightarrow> map_of obj k = Some (lookup obj k)"
  by (auto simp: lookup_def map_of_eq_None_iff split: option.splits)

text \<open>
  Claim C8. For every props object \<open>obj\<close>, the object \<^verbatim>\<open>getCanvasProps\<close> returns has exactly
  the entries of \<open>obj\<close> whose key is neither a key of \<^verbatim>\<open>propTypes\<close> nor a key of
  \<^verbatim>\<open>PROPS_DISPLAY_OBJECT\<close>, each with the value \<open>obj\<close> gives it: a reserved key has no
  entry in the result, every other key has the entry it has in \<open>obj\<close>.
\<close>

theorem getCanvasProps_entries:
  "map_of (getCanvasProps display_keys obj) k =
     (if k \<in> set propTypes_keys \<union> set display_keys then None else map_of obj k)"
proof (cases "k \<in> fst ` set obj")
  case True
  then show ?thesis
    by (simp add: getCanvasProps_def map_of_foldl_update lookup_in_keys)
next
  case False
  then have "map_of obj k = None"
    by (simp add: map_of_eq_None_iff)
  with False show ?thesis
    by (simp add: getCanvasProps_def map_of_foldl_update)
qed

theorem getCanvasProps_entries_witness:
  "map_of (getCanvasProps [''x'', ''alpha'']
       [(''width'', Num 800), (''id'', Str ''stage''), (''alpha'', Num 1), (''onClick'', Fun 7)]) ''id''
     = Some (Str ''stage'') \<and>
   map_of (getCanvasProps [''x'', ''alpha'']
       [(''width'', Num 800), (''id'', Str ''stage''), (''alpha'', Num 1), (''onClick'', Fun 7)]) ''width''
     = None \<and>
   map_of (getCanvasProps [''x'', ''alpha'']
       [(''width'', Num 800), (''id'', Str ''stage''), (''alpha'', Num 1), (''onClick'', Fun 7)]) ''alpha''
     = None"
  using getCanvasProps_entries [of "[''x'', ''alpha'']"
      "[(''width'', Num 800), (''id'', Str ''stage''), (''alpha'', Num 1), (''onClick'', Fun 7)]" "''id''"]
    getCanvasProps_entries [of "[''x'', ''alpha'']"
      "[(''width'', Num 800), (''id'', Str ''stage''), (''alpha'', Num 1), (''onClick'', Fun 7)]" "''width''"]
    getCanvasProps_entries [of "[''x'', ''alpha'']"
      "[(''width'', Num 800), (''id'', Str ''stage''), (''alpha'', Num 1), (''onClick'', Fun 7)]" "''alpha''"]
  by (simp add: propTypes_keys_def)

section \<open>Properties of the Stage\<close>

subsection \<open>Steps that only resize, reset the interaction manager or switch the ticker\<close>

lemma extends_quietly_refl: "extends_quietly st st"
  by (simp add: extends_quietly_def)

lemma extends_quietly_trans:
  "extends_quietly st st1 \<Longrightarrow> extends_quietly st1 st2 \<Longrightarrow> extends_quietly st st2"
  by (auto simp: extends_quietly_def)

lemma and_then_Inr: "(and_then r f = Inr y) = (\<exists>x. r = Inr x \<and> f x = Inr y)"
  by (cases r) (simp_all add: and_then_def)

lemma resetInteractionManager_quiet:
  "app st \<noteq> None \<Longrightarrow> \<exists>st'. resetInteractionManager st = Inr st' \<and> extends_quietly st st'"
  by (auto simp: resetInteractionManager_def extends_quietly_def)

lemma set_resolution_quiet:
  "app st = Some a \<Longrightarrow> extends_quietly st (st\<lparr>app := Some (a\<lparr>renderer_resolution := r\<rparr>)\<rparr>)"
  by (simp add: extends_quietly_def)

lemma updateSize_quiet:
  assumes "app st \<noteq> None"
  shows "\<exists>st'. updateSize st = Inr st' \<and> extends_quietly st st'"
  using assms
  by (auto simp: updateSize_def resetInteractionManager_def and_then_def emit_def Let_def
      extends_quietly_def)

lemma renderStage_mounted:
  "app st = Some a \<Longrightarrow>
   renderStage st =
     Inr (if \<not> raf (props st) \<and> renderOnComponentChange (props st)
          then emit (Render (app_id a)) st else st)"
  by (simp add: renderStage_def Let_def)

lemma quiet_call_kinds:
  "quiet_call e \<Longrightarrow>
   \<not> is_Render e \<and> \<not> is_UpdateContainer e \<and> \<not> is_NewApplication e
   \<and> \<not> mount_call e \<and> \<not> unmount_call e"
  by (cases e) simp_all

lemma filter_quiet:
  assumes "list_all quiet_call evs"
  shows "filter is_Render evs = []" and "filter is_UpdateContainer evs = []"
    and "filter is_NewApplication evs = []"
    and "filter mount_call evs = []" and "filter unmount_call evs = []"
  using assms quiet_call_kinds by (auto simp: list_all_iff filter_empty_conv)

lemma hasAutoDensity_iff: "hasAutoDensity v = (v \<noteq> Bool False)"
  by (cases v) (simp_all add: hasAutoDensity_def strict_neq_def)

lemma emit_changes: "st\<lparr>trace := trace st @ [e]\<rparr> \<noteq> st"
proof
  assume "st\<lparr>trace := trace st @ [e]\<rparr> = st"
  then have "trace (st\<lparr>trace := trace st @ [e]\<rparr>) = trace st"
    by simp
  then show False
    by simp
qed

subsection \<open>What each lifecycle method does to a Stage\<close>

lemma newApplication_simps [simp]:
  "app_id (newApplication st) = next_id st"
  "lookup (ctor_options (newApplication st)) ''autoDensity'' = Bool False"
  by (simp_all add: newApplication_def Let_def lookup_def update_conv')

lemma mount_prefix:
  "\<exists>st4. componentDidMount st = and_then (updateSize st4) renderStage
     \<and> app st4 = Some (newApplication st)
     \<and> props st4 = props st \<and> self st4 = self st \<and> mountNode st4 = Some (next_id st + 2)
     \<and> listeners st4 =
         (if renderOnComponentChange (props st) \<and> \<not> raf (props st)
          then insert (request_render, RenderStageOf (self st)) (listeners st)
          else listeners st)
     \<and> trace st4 = trace st @
          [NewApplication (next_id st) (ctor_options (newApplication st)),
           if raf (props st) then TickerStart (next_id st) else TickerStop (next_id st),
           CreateContainer (next_id st) (next_id st + 2),
           UpdateContainer (Some (AppProvider (Some (next_id st)) (children (props st))))
             (next_id st + 2),
           InjectDevtools,
           Call (onMount (props st)) (Some (next_id st))]
          @ (if hasAutoDensity (opt_member (options (props st)) ''autoDensity'') \<and> matchMedia st
                \<and> \<not> truthy (opt_member (options (props st)) ''resolution'')
             then [MatchMedia (next_id st + 3),
                   AddListener (next_id st + 3) (UpdateSizeOf (self st))]
             else [])
          @ (if renderOnComponentChange (props st) \<and> \<not> raf (props st)
             then [AddEventListener request_render (RenderStageOf (self st))] else [])"
  unfolding componentDidMount_def Let_def
  apply (rule exI, rule conjI, rule refl)
  apply (simp add: getChildren_def)
  done

lemma mount_result:
  "\<exists>st' a' evs. componentDidMount st = Inr st'
     \<and> app st' = Some a' \<and> app_id a' = next_id st
     \<and> ctor_options a' = ctor_options (newApplication st)
     \<and> props st' = props st \<and> self st' = self st \<and> mountNode st' = Some (next_id st + 2)
     \<and> listeners st' =
         (if renderOnComponentChange (props st) \<and> \<not> raf (props st)
          then insert (request_render, RenderStageOf (self st)) (listeners st)
          else listeners st)
     \<and> list_all quiet_call evs
     \<and> new_calls st st' =
          [NewApplication (next_id st) (ctor_options (newApplication st)),
           if raf (props st) then TickerStart (next_id st) else TickerStop (next_id st),
           CreateContainer (next_id st) (next_id st + 2),
           UpdateContainer (Some (AppProvider (Some (next_id st)) (children (props st))))
             (next_id st + 2),
           InjectDevtools,
           Call (onMount (props st)) (Some (next_id st))]
          @ (if hasAutoDensity (opt_member (options (props st)) ''autoDensity'') \<and> matchMedia st
                \<and> \<not> truthy (opt_member (options (props st)) ''resolution'')
             then [MatchMedia (next_id st + 3),
                   AddListener (next_id st + 3) (UpdateSizeOf (self st))]
             else [])
          @ (if renderOnComponentChange (props st) \<and> \<not> raf (props st)
             then [AddEventListener request_render (RenderStageOf (self st))] else [])
          @ evs
          @ (if \<not> raf (props st) \<and> renderOnComponentChange (props st)
             then [Render (next_id st)] else [])"
proof -
  obtain st4 where m: "componentDidMount st = and_then (updateSize st4) renderStage"
    and a4: "app st4 = Some (newApplication st)"
    and f4: "props st4 = props st" "self st4 = self st" "mountNode st4 = Some (next_id st + 2)"
    and l4: "listeners st4 =
         (if renderOnComponentChange (props st) \<and> \<not> raf (props st)
          then insert (request_render, RenderStageOf (self st)) (listeners st)
          else listeners st)"
    and t4: "trace st4 = trace st @
          [NewApplication (next_id st) (ctor_options (newApplication st)),
           if raf (props st) then TickerStart (next_id st) else TickerStop (next_id st),
           CreateContainer (next_id st) (next_id st + 2),
           UpdateContainer (Some (AppProvider (Some (next_id st)) (children (props st))))
             (next_id st + 2),
           InjectDevtools,
           Call (onMount (props st)) (Some (next_id st))]
          @ (if hasAutoDensity (opt_member (options (props st)) ''autoDensity'') \<and> matchMedia st
                \<and> \<not> truthy (opt_member (options (props st)) ''resolution'')
             then [MatchMedia (next_id st + 3),
                   AddListener (next_id st + 3) (UpdateSizeOf (self st))]
             else [])
          @ (if renderOnComponentChange (props st) \<and> \<not> raf (props st)
             then [AddEventListener request_render (RenderStageOf (self st))] else [])"
    using mount_prefix [of st] by blast
  from a4 obtain st5 where u: "updateSize st4 = Inr st5" and q: "extends_quietly st4 st5"
    using updateSize_quiet [of st4] by auto
  from q obtain evs where t5: "trace st5 = trace st4 @ evs" and qe: "list_all quiet_call evs"
    by (auto simp: extends_quietly_def)
  from q a4 obtain a5 where a5: "app st5 = Some a5" "app_id a5 = next_id st"
      "ctor_options a5 = ctor_options (newApplication st)"
    by (auto simp: extends_quietly_def)
  from q f4 l4 have f5: "props st5 = props st" "self st5 = self st"
      "mountNode st5 = Some (next_id st + 2)"
      "listeners st5 =
         (if renderOnComponentChange (props st) \<and> \<not> raf (props st)
          then insert (request_render, RenderStageOf (self st)) (listeners st)
          else listeners st)"
    by (simp_all add: extends_quietly_def)
  have r: "componentDidMount st =
     Inr (if \<not> raf (props st) \<and> renderOnComponentChange (props st)
          then emit (Render (next_id st)) st5 else st5)"
    using m u a5 f5 by (simp add: and_then_def renderStage_mounted)
  show ?thesis
  proof (cases "\<not> raf (props st) \<and> renderOnComponentChange (props st)")
    case True
    with r a5 f5 t5 t4 qe show ?thesis
      by (simp add: emit_def new_calls_def)
  next
    case False
    with r a5 f5 t5 t4 qe show ?thesis
      by (auto simp: emit_def new_calls_def)
  qed
qed

lemma unmount_result:
  assumes "app st = Some a" and "mountNode st = Some c"
  shows "\<exists>st'. componentWillUnmount st = Inr st'
     \<and> listeners st' = listeners st - {(request_render, RenderStageOf (self st))}
     \<and> self st' = self st
     \<and> new_calls st st' =
          [Call (onUnmount (props st)) (Some (app_id a)),
           RemoveEventListener request_render (RenderStageOf (self st)),
           UpdateContainer None c]
          @ (case mediaQuery st of None \<Rightarrow> []
             | Some m \<Rightarrow> [RemoveListener m (UpdateSizeOf (self st))])
          @ (if \<not> raf (props st) \<and> renderOnComponentChange (props st)
             then [Render (app_id a)] else [])
          @ [AppDestroy (app_id a)]"
  using assms
  by (simp add: componentWillUnmount_def and_then_def emit_def Let_def new_calls_def
      renderStage_def split: option.splits)

lemma update_result:
  assumes a: "app st = Some a" and c: "mountNode st = Some c"
    and u: "componentDidUpdate prevProps st = Inr st'"
  shows "\<exists>a' evs. app st' = Some a' \<and> app_id a' = app_id a \<and> mountNode st' = Some c
     \<and> props st' = props st \<and> self st' = self st \<and> listeners st' = listeners st
     \<and> mediaQuery st' = mediaQuery st
     \<and> list_all quiet_call evs
     \<and> new_calls st st' =
          evs @ [UpdateContainer (Some (AppProvider (Some (app_id a)) (children (props st)))) c]
          @ (if props_changed prevProps (props st)
                \<and> \<not> raf (props st) \<and> renderOnComponentChange (props st)
             then [Render (app_id a)] else [])"
proof -
  let ?p = "props st"
  let ?res = "opt_member (options ?p) ''resolution''"
  from u obtain st1 st2 st3 st4 where
    s1: "(if truthy ?res
         then (case member (options prevProps) ''resolution'' of
                 Inl e \<Rightarrow> Inl e
               | Inr prev \<Rightarrow>
                   if strict_neq prev ?res
                   then (case app st of
                           None \<Rightarrow> Inl TypeError
                         | Some a \<Rightarrow>
                             resetInteractionManager
                               (st\<lparr>app := Some (a\<lparr>renderer_resolution := ?res\<rparr>)\<rparr>))
                   else Inr st)
         else Inr st) = Inr st1"
    and s2: "(if strict_neq (height prevProps) (height ?p)
               \<or> strict_neq (width prevProps) (width ?p)
               \<or> strict_neq (opt_member (options prevProps) ''resolution'') ?res
           then updateSize st1
           else Inr st1) = Inr st2"
    and s3: "(if raf prevProps \<noteq> raf ?p
           then (case app st2 of
                   None \<Rightarrow> Inl TypeError
                 | Some a \<Rightarrow>
                     Inr (emit (if raf ?p then TickerStart (app_id a)
                                else TickerStop (app_id a)) st2))
           else Inr st2) = Inr st3"
    and s4: "(case mountNode st3 of
             None \<Rightarrow> Inl TypeError
           | Some c \<Rightarrow> Inr (emit (UpdateContainer (Some (getChildren st3)) c) st3)) = Inr st4"
    and s5: "(if props_changed prevProps ?p then renderStage st4 else Inr st4) = Inr st'"
    unfolding componentDidUpdate_def Let_def and_then_Inr props_changed_def by blast
  have q1: "extends_quietly st st1"
  proof (cases "truthy ?res")
    case False
    with s1 show ?thesis by (simp add: extends_quietly_refl)
  next
    case True
    with s1 obtain prev where p: "member (options prevProps) ''resolution'' = Inr prev"
      by (auto split: sum.splits)
    show ?thesis
    proof (cases "strict_neq prev ?res")
      case False
      with s1 True p show ?thesis by (simp add: extends_quietly_refl)
    next
      case neq: True
      let ?s = "st\<lparr>app := Some (a\<lparr>renderer_resolution := ?res\<rparr>)\<rparr>"
      from s1 True p neq a have "resetInteractionManager ?s = Inr st1" by simp
      moreover have "app ?s \<noteq> None" by simp
      ultimately have "extends_quietly ?s st1"
        using resetInteractionManager_quiet [of ?s] by auto
      with set_resolution_quiet [OF a] show ?thesis
        by (rule extends_quietly_trans)
    qed
  qed
  with a have a1: "app st1 \<noteq> None" by (auto simp: extends_quietly_def)
  have q2: "extends_quietly st1 st2"
    using s2 a1 updateSize_quiet [of st1] by (auto simp: extends_quietly_refl split: if_splits)
  with a1 have a2: "app st2 \<noteq> None" by (auto simp: extends_quietly_def)
  have q3: "extends_quietly st2 st3"
    using s3 a2 by (auto simp: extends_quietly_def emit_def split: if_splits)
  have q: "extends_quietly st st3"
    using q1 q2 q3 by (blast intro: extends_quietly_trans)
  then obtain evs where t3: "trace st3 = trace st @ evs" and qe: "list_all quiet_call evs"
    by (auto simp: extends_quietly_def)
  from q a obtain a3 where a3: "app st3 = Some a3" "app_id a3 = app_id a"
    by (auto simp: extends_quietly_def)
  from q c have f3: "mountNode st3 = Some c" "props st3 = props st" "self st3 = self st"
      "listeners st3 = listeners st" "mediaQuery st3 = mediaQuery st"
    by (simp_all add: extends_quietly_def)
  from s4 f3 a3 have st4: "st4 = emit (UpdateContainer (Some (AppProvider (Some (app_id a))
      (children (props st)))) c) st3"
    by (simp add: getChildren_def)
  have a4: "app st4 = Some a3" "props st4 = props st"
    using st4 a3 f3 by (simp_all add: emit_def)
  show ?thesis
  proof (cases "props_changed prevProps ?p \<and> \<not> raf ?p \<and> renderOnComponentChange ?p")
    case True
    with s5 a4 a3 have "st' = emit (Render (app_id a)) st4"
      by (simp add: renderStage_mounted)
    with True st4 a3 f3 t3 qe show ?thesis
      by (simp add: emit_def new_calls_def)
  next
    case False
    with s5 a4 have "st' = st4"
      by (auto simp: renderStage_mounted split: if_splits)
    with False st4 a3 f3 t3 qe show ?thesis
      by (auto simp: emit_def new_calls_def)
  qed
qed

lemma update_frame:
  assumes "app st = Some a" and "mountNode st = Some c" and "update newProps st = Inr st'"
  shows "\<exists>a'. app st' = Some a' \<and> mountNode st' = Some c \<and> listeners st' = listeners st
     \<and> self st' = self st"
proof -
  let ?s = "st\<lparr>props := newProps\<rparr>"
  have "app ?s = Some a" "mountNode ?s = Some c"
    using assms by simp_all
  moreover have "componentDidUpdate (props st) ?s = Inr st'"
    using assms by (simp add: update_def)
  ultimately show ?thesis
    using update_result [of ?s a c "props st" st'] by auto
qed

lemma updates_frame:
  "app st = Some a \<Longrightarrow> mountNode st = Some c \<Longrightarrow> updates ps st = Inr st' \<Longrightarrow>
   \<exists>a'. app st' = Some a' \<and> mountNode st' = Some c \<and> listeners st' = listeners st
     \<and> self st' = self st"
proof (induction ps arbitrary: st a)
  case Nil
  then show ?case by simp
next
  case (Cons p ps)
  from Cons.prems(3) obtain st1 where u: "update p st = Inr st1" and r: "updates ps st1 = Inr st'"
    by (auto simp: and_then_Inr)
  from update_frame [OF Cons.prems(1,2) u] obtain a1 where
    f: "app st1 = Some a1" "mountNode st1 = Some c" "listeners st1 = listeners st"
      "self st1 = self st"
    by blast
  from Cons.IH [OF f(1,2) r] f show ?case by auto
qed

lemma redraws_split:
  assumes "filter is_UpdateContainer pre = []"
  shows "redraws_after_commit (pre @ UpdateContainer el c # post) = length (filter is_Render post)"
proof -
  from assms have "\<forall>e\<in>set pre. \<not> is_UpdateContainer e"
    by (simp add: filter_empty_conv)
  then have "dropWhile (\<lambda>e. \<not> is_UpdateContainer e) (pre @ UpdateContainer el c # post)
      = UpdateContainer el c # post"
    by (simp add: dropWhile_append3)
  then show ?thesis by (simp add: redraws_after_commit_def)
qed

subsection \<open>The example stages\<close>

lemma mount_stage0: "componentDidMount stage0 = Inr stage1"
  by code_simp

lemma mounted_stage1: "mounted stage1"
  by code_simp

subsection \<open>The claims about the Stage\<close>

text \<open>
  Claim C2. For every mounted Stage, \<^verbatim>\<open>componentWillUnmount\<close> returns, and among its calls
  the callbacks, the removals of window listeners, the commits and the destructions are
  exactly these four, in this order: \<^verbatim>\<open>onUnmount\<close> on the application, the removal of the
  render-request listener, the commit of \<^verbatim>\<open>null\<close> to the root container, and
  \<^verbatim>\<open>app.destroy()\<close>. So the commit of the empty tree comes strictly before the application
  is destroyed. (The commit is the reconciler's \<^verbatim>\<open>updateContainer\<close>, one call of the Stage.)
\<close>

theorem unmount_order:
  assumes "mounted st"
  shows "\<exists>st' n c. componentWillUnmount st = Inr st'
     \<and> map_option app_id (app st) = Some n \<and> mountNode st = Some c
     \<and> filter unmount_call (new_calls st st') =
         [Call (onUnmount (props st)) (Some n),
          RemoveEventListener request_render (RenderStageOf (self st)),
          UpdateContainer None c,
          AppDestroy n]"
proof -
  from assms obtain a c where ac: "app st = Some a" "mountNode st = Some c"
    by (auto simp: mounted_def)
  from unmount_result [OF this] obtain st' where "componentWillUnmount st = Inr st'"
    and "new_calls st st' =
          [Call (onUnmount (props st)) (Some (app_id a)),
           RemoveEventListener request_render (RenderStageOf (self st)),
           UpdateContainer None c]
          @ (case mediaQuery st of None \<Rightarrow> []
             | Some m \<Rightarrow> [RemoveListener m (UpdateSizeOf (self st))])
          @ (if \<not> raf (props st) \<and> renderOnComponentChange (props st)
             then [Render (app_id a)] else [])
          @ [AppDestroy (app_id a)]"
    by blast
  with ac show ?thesis by (simp split: option.splits)
qed

theorem unmount_order_witness:
  "mounted stage1
   \<and> map_option (filter unmount_call) (stage_calls stage1 (componentWillUnmount stage1)) =
       Some [Call noop (Some 10),
             RemoveEventListener request_render (RenderStageOf 1),
             UpdateContainer None 12,
             AppDestroy 10]"
proof -
  have "map_option (filter unmount_call) (stage_calls stage1 (componentWillUnmount stage1)) =
       Some [Call noop (Some 10),
             RemoveEventListener request_render (RenderStageOf 1),
             UpdateContainer None 12,
             AppDestroy 10]"
    by code_simp
  with unmount_order [OF mounted_stage1] mounted_stage1 show ?thesis
    by blast
qed

text \<open>
  Claim C3, as the spec states it: after every commit, of a mount, an update or an
  unmount, the Stage requests a redraw exactly once. It fails on an update that changes
  none of \<^verbatim>\<open>width\<close>, \<^verbatim>\<open>height\<close>, \<^verbatim>\<open>raf\<close>, \<^verbatim>\<open>renderOnComponentChange\<close> and \<^verbatim>\<open>options\<close>: the
  mounted Stage \<open>stage1\<close> (\<^verbatim>\<open>raf = false\<close>, \<^verbatim>\<open>renderOnComponentChange = true\<close>), updated with
  the props it has, commits and then neither calls \<^verbatim>\<open>renderStage\<close> nor draws.
\<close>

theorem redraw_once_counterexample:
  "mounted stage1
   \<and> stage_calls stage1 (componentDidUpdate (props stage1) stage1) =
       Some [UpdateContainer (Some (AppProvider (Some 10) Undefined)) 12]
   \<and> map_option redraws_after_commit
       (stage_calls stage1 (componentDidUpdate (props stage1) stage1)) = Some 0"
  by code_simp

text \<open>
  Claim C3, amended. With \<^verbatim>\<open>raf\<close> false and \<^verbatim>\<open>renderOnComponentChange\<close> true, the Stage
  redraws exactly once after the commit of a mount and after the commit of an unmount,
  and after the commit of an update that returns it redraws exactly once when one of
  \<^verbatim>\<open>width\<close>, \<^verbatim>\<open>height\<close>, \<^verbatim>\<open>raf\<close>, \<^verbatim>\<open>renderOnComponentChange\<close> and \<^verbatim>\<open>options\<close> differs
  (\<^verbatim>\<open>!==\<close>) from the previous props, and not at all otherwise. With \<^verbatim>\<open>raf\<close> true or
  \<^verbatim>\<open>renderOnComponentChange\<close> false the Stage redraws after no commit.
\<close>

theorem redraws_after_commit_amended:
  "map_option redraws_after_commit (stage_calls st (componentDidMount st)) =
      Some (if \<not> raf (props st) \<and> renderOnComponentChange (props st) then 1 else 0)
   \<and> (mounted st \<longrightarrow>
        map_option redraws_after_commit (stage_calls st (componentWillUnmount st)) =
          Some (if \<not> raf (props st) \<and> renderOnComponentChange (props st) then 1 else 0))
   \<and> (mounted st \<longrightarrow> (\<forall>prevProps st'. componentDidUpdate prevProps st = Inr st' \<longrightarrow>
        redraws_after_commit (new_calls st st') =
          (if props_changed prevProps (props st)
              \<and> \<not> raf (props st) \<and> renderOnComponentChange (props st) then 1 else 0)))"
proof (intro conjI impI allI)
  from mount_result [of st] obtain st' evs where
    m: "componentDidMount st = Inr st'" and q: "list_all quiet_call evs"
    and n: "new_calls st st' =
          [NewApplication (next_id st) (ctor_options (newApplication st)),
           if raf (props st) then TickerStart (next_id st) else TickerStop (next_id st),
           CreateContainer (next_id st) (next_id st + 2),
           UpdateContainer (Some (AppProvider (Some (next_id st)) (children (props st))))
             (next_id st + 2),
           InjectDevtools,
           Call (onMount (props st)) (Some (next_id st))]
          @ (if hasAutoDensity (opt_member (options (props st)) ''autoDensity'') \<and> matchMedia st
                \<and> \<not> truthy (opt_member (options (props st)) ''resolution'')
             then [MatchMedia (next_id st + 3),
                   AddListener (next_id st + 3) (UpdateSizeOf (self st))]
             else [])
          @ (if renderOnComponentChange (props st) \<and> \<not> raf (props st)
             then [AddEventListener request_render (RenderStageOf (self st))] else [])
          @ evs
          @ (if \<not> raf (props st) \<and> renderOnComponentChange (props st)
             then [Render (next_id st)] else [])"
    by blast
  let ?pre = "[NewApplication (next_id st) (ctor_options (newApplication st)),
           if raf (props st) then TickerStart (next_id st) else TickerStop (next_id st),
           CreateContainer (next_id st) (next_id st + 2)]"
  let ?post = "[InjectDevtools, Call (onMount (props st)) (Some (next_id st))]
          @ (if hasAutoDensity (opt_member (options (props st)) ''autoDensity'') \<and> matchMedia st
                \<and> \<not> truthy (opt_member (options (props st)) ''resolution'')
             then [MatchMedia (next_id st + 3),
                   AddListener (next_id st + 3) (UpdateSizeOf (self st))]
             else [])
          @ (if renderOnComponentChange (props st) \<and> \<not> raf (props st)
             then [AddEventListener request_render (RenderStageOf (self st))] else [])
          @ evs
          @ (if \<not> raf (props st) \<and> renderOnComponentChange (props st)
             then [Render (next_id st)] else [])"
  have "new_calls st st' = ?pre @ UpdateContainer (Some (AppProvider (Some (next_id st))
      (children (props st)))) (next_id st + 2) # ?post"
    using n by simp
  moreover have "filter is_UpdateContainer ?pre = []" by simp
  ultimately have "redraws_after_commit (new_calls st st') = length (filter is_Render ?post)"
    by (simp only: redraws_split)
  with q m show "map_option redraws_after_commit (stage_calls st (componentDidMount st)) =
      Some (if \<not> raf (props st) \<and> renderOnComponentChange (props st) then 1 else 0)"
    by (simp add: stage_calls_def filter_quiet)
next
  assume "mounted st"
  then obtain a c where ac: "app st = Some a" "mountNode st = Some c"
    by (auto simp: mounted_def)
  from unmount_result [OF this] obtain st' where m: "componentWillUnmount st = Inr st'"
    and n: "new_calls st st' =
          [Call (onUnmount (props st)) (Some (app_id a)),
           RemoveEventListener request_render (RenderStageOf (self st)),
           UpdateContainer None c]
          @ (case mediaQuery st of None \<Rightarrow> []
             | Some m \<Rightarrow> [RemoveListener m (UpdateSizeOf (self st))])
          @ (if \<not> raf (props st) \<and> renderOnComponentChange (props st)
             then [Render (app_id a)] else [])
          @ [AppDestroy (app_id a)]"
    by blast
  let ?pre = "[Call (onUnmount (props st)) (Some (app_id a)),
           RemoveEventListener request_render (RenderStageOf (self st))]"
  let ?post = "(case mediaQuery st of None \<Rightarrow> []
             | Some m \<Rightarrow> [RemoveListener m (UpdateSizeOf (self st))])
          @ (if \<not> raf (props st) \<and> renderOnComponentChange (props st)
             then [Render (app_id a)] else [])
          @ [AppDestroy (app_id a)]"
  have "new_calls st st' = ?pre @ UpdateContainer None c # ?post"
    using n by simp
  moreover have "filter is_UpdateContainer ?pre = []" by simp
  ultimately have "redraws_after_commit (new_calls st st') = length (filter is_Render ?post)"
    by (simp only: redraws_split)
  with m show "map_option redraws_after_commit (stage_calls st (componentWillUnmount st)) =
          Some (if \<not> raf (props st) \<and> renderOnComponentChange (props st) then 1 else 0)"
    by (simp add: stage_calls_def split: option.splits)
next
  fix prevProps st'
  assume "mounted st" and u: "componentDidUpdate prevProps st = Inr st'"
  then obtain a c where ac: "app st = Some a" "mountNode st = Some c"
    by (auto simp: mounted_def)
  let ?post = "if props_changed prevProps (props st)
                \<and> \<not> raf (props st) \<and> renderOnComponentChange (props st)
             then [Render (app_id a)] else []"
  from update_result [OF ac u] obtain evs where q: "list_all quiet_call evs"
    and n: "new_calls st st' =
          evs @ [UpdateContainer (Some (AppProvider (Some (app_id a)) (children (props st)))) c]
          @ ?post"
    by blast
  from q have "filter is_UpdateContainer evs = []" by (rule filter_quiet)
  then have "redraws_after_commit (evs @ UpdateContainer (Some (AppProvider (Some (app_id a))
       (children (props st)))) c # ?post) = length (filter is_Render ?post)"
    by (rule redraws_split)
  with n show "redraws_after_commit (new_calls st st') =
          (if props_changed prevProps (props st)
              \<and> \<not> raf (props st) \<and> renderOnComponentChange (props st) then 1 else 0)"
    by simp
qed

theorem redraws_after_commit_amended_witness:
  "map_option redraws_after_commit (stage_calls stage0 (componentDidMount stage0)) = Some 1
   \<and> mounted stage1
   \<and> map_option redraws_after_commit (stage_calls stage1 (componentWillUnmount stage1)) = Some 1
   \<and> map_option redraws_after_commit
       (stage_calls (stage1\<lparr>props := (props stage1)\<lparr>width := Num 300\<rparr>\<rparr>)
          (componentDidUpdate (props stage1)
             (stage1\<lparr>props := (props stage1)\<lparr>width := Num 300\<rparr>\<rparr>))) = Some 1"
proof -
  have "map_option redraws_after_commit
       (stage_calls (stage1\<lparr>props := (props stage1)\<lparr>width := Num 300\<rparr>\<rparr>)
          (componentDidUpdate (props stage1)
             (stage1\<lparr>props := (props stage1)\<lparr>width := Num 300\<rparr>\<rparr>))) = Some 1"
    by code_simp
  moreover have "\<not> raf (props stage0) \<and> renderOnComponentChange (props stage0)"
    "\<not> raf (props stage1) \<and> renderOnComponentChange (props stage1)"
    by code_simp+
  ultimately show ?thesis
    using redraws_after_commit_amended [of stage0] redraws_after_commit_amended [of stage1]
      mounted_stage1
    by simp
qed

text \<open>
  Claim C4. \<^verbatim>\<open>componentDidMount\<close> always returns, and among its calls the container
  creations, the commits and the callbacks are exactly these three, in this order: one
  \<^verbatim>\<open>createContainer\<close> on the stage of the application just constructed, one commit of the
  children of the props (wrapped in the \<^verbatim>\<open>AppProvider\<close> of that application) to the
  container that call returned, the first call made on it, and then \<^verbatim>\<open>onMount\<close> on the
  application. The container is the \<^verbatim>\<open>mountNode\<close> of the mounted Stage.
\<close>

theorem mount_creates_root_then_commits:
  "\<exists>st' n c. componentDidMount st = Inr st'
     \<and> map_option app_id (app st') = Some n \<and> mountNode st' = Some c
     \<and> filter mount_call (new_calls st st') =
         [CreateContainer n c,
          UpdateContainer (Some (AppProvider (Some n) (children (props st)))) c,
          Call (onMount (props st)) (Some n)]"
proof -
  from mount_result [of st] obtain st' a' evs where
    "componentDidMount st = Inr st'" "app st' = Some a'" "app_id a' = next_id st"
    "mountNode st' = Some (next_id st + 2)" "list_all quiet_call evs"
    and n: "new_calls st st' =
          [NewApplication (next_id st) (ctor_options (newApplication st)),
           if raf (props st) then TickerStart (next_id st) else TickerStop (next_id st),
           CreateContainer (next_id st) (next_id st + 2),
           UpdateContainer (Some (AppProvider (Some (next_id st)) (children (props st))))
             (next_id st + 2),
           InjectDevtools,
           Call (onMount (props st)) (Some (next_id st))]
          @ (if hasAutoDensity (opt_member (options (props st)) ''autoDensity'') \<and> matchMedia st
                \<and> \<not> truthy (opt_member (options (props st)) ''resolution'')
             then [MatchMedia (next_id st + 3),
                   AddListener (next_id st + 3) (UpdateSizeOf (self st))]
             else [])
          @ (if renderOnComponentChange (props st) \<and> \<not> raf (props st)
             then [AddEventListener request_render (RenderStageOf (self st))] else [])
          @ evs
          @ (if \<not> raf (props st) \<and> renderOnComponentChange (props st)
             then [Render (next_id st)] else [])"
    by blast
  moreover from this have "filter mount_call (new_calls st st') =
        [CreateContainer (next_id st) (next_id st + 2),
         UpdateContainer (Some (AppProvider (Some (next_id st)) (children (props st))))
           (next_id st + 2),
         Call (onMount (props st)) (Some (next_id st))]"
    by (simp add: filter_quiet)
  ultimately show ?thesis by simp
qed

theorem mount_creates_root_then_commits_witness:
  "map_option (filter mount_call) (stage_calls stage0 (componentDidMount stage0)) =
     Some [CreateContainer 10 12,
           UpdateContainer (Some (AppProvider (Some 10) Undefined)) 12,
           Call noop (Some 10)]
   \<and> map_option mountNode (Some stage1) = Some (Some 12)"
proof -
  have "map_option (filter mount_call) (stage_calls stage0 (componentDidMount stage0)) =
     Some [CreateContainer 10 12,
           UpdateContainer (Some (AppProvider (Some 10) Undefined)) 12,
           Call noop (Some 10)]"
    "mountNode stage1 = Some 12"
    by code_simp+
  with mount_creates_root_then_commits [of stage0] show ?thesis
    by simp
qed

text \<open>
  Claim C5. The render-request channel is the event \<^verbatim>\<open>__REACT_PIXI_REQUEST_RENDER__\<close> on
  \<^verbatim>\<open>window\<close>. A Stage whose \<^verbatim>\<open>renderStage\<close> is not registered before its mount holds the
  listener after \<^verbatim>\<open>componentDidMount\<close> if and only if its props at the mount have
  \<^verbatim>\<open>renderOnComponentChange\<close> true and \<^verbatim>\<open>raf\<close> false; no sequence of updates that return
  changes that; and \<^verbatim>\<open>componentWillUnmount\<close> then returns with the listener removed.
\<close>

theorem render_request_listener_lifetime:
  assumes "\<not> holds_listener st"
  shows "request_render = ''__REACT_PIXI_REQUEST_RENDER__''
     \<and> (\<exists>st1. componentDidMount st = Inr st1
         \<and> (holds_listener st1 = (renderOnComponentChange (props st) \<and> \<not> raf (props st)))
         \<and> (\<forall>ps st2. updates ps st1 = Inr st2 \<longrightarrow>
               (holds_listener st2 = holds_listener st1)
               \<and> (\<exists>st3. componentWillUnmount st2 = Inr st3 \<and> \<not> holds_listener st3)))"
proof -
  from mount_result [of st] obtain st1 a1 where
    m: "componentDidMount st = Inr st1" and a1: "app st1 = Some a1"
    and c1: "mountNode st1 = Some (next_id st + 2)" and s1: "self st1 = self st"
    and l1: "listeners st1 =
         (if renderOnComponentChange (props st) \<and> \<not> raf (props st)
          then insert (request_render, RenderStageOf (self st)) (listeners st)
          else listeners st)"
    by blast
  have h1: "holds_listener st1 = (renderOnComponentChange (props st) \<and> \<not> raf (props st))"
    using assms l1 s1 by (simp add: holds_listener_def)
  have "(holds_listener st2 = holds_listener st1)
           \<and> (\<exists>st3. componentWillUnmount st2 = Inr st3 \<and> \<not> holds_listener st3)"
    if u: "updates ps st1 = Inr st2" for ps st2
  proof -
    from updates_frame [OF a1 c1 u] obtain a2 where
      f: "app st2 = Some a2" "mountNode st2 = Some (next_id st + 2)"
        "listeners st2 = listeners st1" "self st2 = self st1"
      by blast
    from unmount_result [OF f(1,2)] obtain st3 where
      "componentWillUnmount st2 = Inr st3"
      "listeners st3 = listeners st2 - {(request_render, RenderStageOf (self st2))}"
      "self st3 = self st2"
      by blast
    with f show ?thesis by (auto simp: holds_listener_def)
  qed
  with m h1 show ?thesis by (simp add: request_render_def)
qed

theorem render_request_listener_lifetime_witness:
  "\<not> holds_listener stage0 \<and> holds_listener stage1
   \<and> (case updates [(props stage1)\<lparr>raf := True\<rparr>] stage1 of
         Inl e \<Rightarrow> False
       | Inr st2 \<Rightarrow> holds_listener st2
           \<and> (case componentWillUnmount st2 of
                 Inl e \<Rightarrow> False
               | Inr st3 \<Rightarrow> \<not> holds_listener st3))"
proof -
  have h: "\<not> holds_listener stage0"
    by code_simp
  have "holds_listener stage1
   \<and> (case updates [(props stage1)\<lparr>raf := True\<rparr>] stage1 of
         Inl e \<Rightarrow> False
       | Inr st2 \<Rightarrow> holds_listener st2
           \<and> (case componentWillUnmount st2 of
                 Inl e \<Rightarrow> False
               | Inr st3 \<Rightarrow> \<not> holds_listener st3))"
    by code_simp
  with render_request_listener_lifetime [OF h] h show ?thesis
    by blast
qed

text \<open>
  Claim C6: whenever the resolution option changes between two updates and is set in the
  new props, the renderer's resolution becomes the new value and the interaction manager
  is destroyed and replaced. The code does not do so when the previous props have no
  \<^verbatim>\<open>options\<close>: line 156 reads \<^verbatim>\<open>prevProps?.options.resolution\<close> where line 165 reads
  \<^verbatim>\<open>prevProps.options?.resolution\<close>, and the update of the mounted Stage \<open>stage1\<close> (no
  \<^verbatim>\<open>options\<close>) to \<^verbatim>\<open>options = {resolution: 2}\<close> throws a TypeError before anything is set.
\<close>

theorem resolution_change_throws:
  "options (props stage1) = Undefined
   \<and> update ((props stage1)\<lparr>options := Obj 20 [(''resolution'', Num 2)]\<rparr>) stage1
       = Inl TypeError"
  by code_simp

text \<open>The same for any Stage: a truthy new resolution after props whose \<^verbatim>\<open>options\<close> are
  \<^verbatim>\<open>undefined\<close> or \<^verbatim>\<open>null\<close> throws.\<close>

lemma resolution_read_throws:
  assumes "truthy (opt_member (options (props st)) ''resolution'')"
    and "options prevProps = Undefined \<or> options prevProps = Null"
  shows "componentDidUpdate prevProps st = Inl TypeError"
  using assms by (auto simp: componentDidUpdate_def and_then_def Let_def)

text \<open>Where the previous \<^verbatim>\<open>options\<close> are an object, the code does what claim C6 says: a
  truthy new resolution that differs from the previous one is assigned to the renderer,
  and the interaction manager is destroyed and a new one constructed on the same
  application.\<close>

lemma resolution_change_applied:
  assumes a: "app st = Some a" and c: "mountNode st = Some c"
    and p: "options prevProps = Obj r fs"
    and t: "truthy (opt_member (options (props st)) ''resolution'')"
    and n: "strict_neq (lookup fs ''resolution'') (opt_member (options (props st)) ''resolution'')"
  shows "\<exists>st' a' evs. componentDidUpdate prevProps st = Inr st' \<and> app st' = Some a'
     \<and> renderer_resolution a' = opt_member (options (props st)) ''resolution''
     \<and> interaction a' = next_id st
     \<and> new_calls st st' =
         InteractionDestroy (interaction a) # NewInteractionManager (next_id st) (app_id a) # evs"
  using assms
  by (auto simp: componentDidUpdate_def updateSize_def resetInteractionManager_def
      renderStage_def and_then_def emit_def Let_def new_calls_def opt_member_def)

text \<open>The second half of claim C6: a size update without a truthy resolution option sets
  the renderer's resolution to the device pixel ratio and makes the same reset.\<close>

lemma updateSize_resets:
  assumes a: "app st = Some a"
    and t: "\<not> truthy (opt_member (options (props st)) ''resolution'')"
  shows "\<exists>st' a' evs. updateSize st = Inr st' \<and> app st' = Some a'
     \<and> renderer_resolution a' = devicePixelRatio st
     \<and> interaction a' = next_id st
     \<and> new_calls st st' =
         InteractionDestroy (interaction a) # NewInteractionManager (next_id st) (app_id a) # evs"
  using assms
  by (auto simp: updateSize_def resetInteractionManager_def and_then_def emit_def Let_def
      new_calls_def)

text \<open>
  Claim C7. \<^verbatim>\<open>componentDidCatch\<close> writes the error and its info to \<^verbatim>\<open>console.error\<close>, after
  a line that names the Stage, and does nothing else: no error it is given is dropped.
\<close>

theorem componentDidCatch_logs:
  "componentDidCatch err errorInfo st =
     st\<lparr>trace := trace st @
          [ConsoleError (Str ''Error occurred in `Stage`.''),
           ConsoleError err,
           ConsoleError errorInfo]\<rparr>"
  by (simp add: componentDidCatch_def emit_def)

text \<open>
  Claim C9. \<^verbatim>\<open>componentDidMount\<close> constructs one application, and the options it is
  constructed with have \<^verbatim>\<open>autoDensity\<close> false whatever the \<^verbatim>\<open>options\<close> of the props hold. Yet
  \<^verbatim>\<open>updateSize\<close> on a Stage with an application assigns \<^verbatim>\<open>width + 'px'\<close> and \<^verbatim>\<open>height + 'px'\<close>
  to the style of the canvas unless \<^verbatim>\<open>options.autoDensity\<close> is \<^verbatim>\<open>false\<close> itself, so also when
  it is \<^verbatim>\<open>undefined\<close>; when it is \<^verbatim>\<open>false\<close> the style is left as it was.
\<close>

theorem autoDensity_forced_off_yet_css_sized:
  "(\<exists>st' a. componentDidMount st = Inr st' \<and> app st' = Some a
      \<and> lookup (ctor_options a) ''autoDensity'' = Bool False
      \<and> filter is_NewApplication (new_calls st st') =
          [NewApplication (app_id a) (ctor_options a)])
   \<and> (app st = Some a0 \<longrightarrow>
       (\<exists>st' a'. updateSize st = Inr st' \<and> app st' = Some a'
          \<and> (if opt_member (options (props st)) ''autoDensity'' = Bool False
              then style_width a' = style_width a0 \<and> style_height a' = style_height a0
              else style_width a' = Some (width (props st))
                 \<and> style_height a' = Some (height (props st)))))"
proof (intro conjI impI)
  from mount_result [of st] obtain st' a' evs where
    "componentDidMount st = Inr st'" "app st' = Some a'" "app_id a' = next_id st"
    "ctor_options a' = ctor_options (newApplication st)" "list_all quiet_call evs"
    and n: "new_calls st st' =
          [NewApplication (next_id st) (ctor_options (newApplication st)),
           if raf (props st) then TickerStart (next_id st) else TickerStop (next_id st),
           CreateContainer (next_id st) (next_id st + 2),
           UpdateContainer (Some (AppProvider (Some (next_id st)) (children (props st))))
             (next_id st + 2),
           InjectDevtools,
           Call (onMount (props st)) (Some (next_id st))]
          @ (if hasAutoDensity (opt_member (options (props st)) ''autoDensity'') \<and> matchMedia st
                \<and> \<not> truthy (opt_member (options (props st)) ''resolution'')
             then [MatchMedia (next_id st + 3),
                   AddListener (next_id st + 3) (UpdateSizeOf (self st))]
             else [])
          @ (if renderOnComponentChange (props st) \<and> \<not> raf (props st)
             then [AddEventListener request_render (RenderStageOf (self st))] else [])
          @ evs
          @ (if \<not> raf (props st) \<and> renderOnComponentChange (props st)
             then [Render (next_id st)] else [])"
    by blast
  moreover from this have "filter is_NewApplication (new_calls st st') =
      [NewApplication (next_id st) (ctor_options (newApplication st))]"
    by (simp add: filter_quiet)
  ultimately show "\<exists>st' a. componentDidMount st = Inr st' \<and> app st' = Some a
      \<and> lookup (ctor_options a) ''autoDensity'' = Bool False
      \<and> filter is_NewApplication (new_calls st st') =
          [NewApplication (app_id a) (ctor_options a)]"
    by simp
next
  assume "app st = Some a0"
  then show "\<exists>st' a'. updateSize st = Inr st' \<and> app st' = Some a'
          \<and> (if opt_member (options (props st)) ''autoDensity'' = Bool False
              then style_width a' = style_width a0 \<and> style_height a' = style_height a0
              else style_width a' = Some (width (props st))
                 \<and> style_height a' = Some (height (props st)))"
    by (auto simp: updateSize_def resetInteractionManager_def and_then_def emit_def Let_def
        hasAutoDensity_iff)
qed

theorem autoDensity_forced_off_yet_css_sized_witness:
  "map_option (\<lambda>a. lookup (ctor_options a) ''autoDensity'')
       (result_app (componentDidMount stage2)) = Some (Bool False)
   \<and> map_option style_width (result_app (componentDidMount stage2)) = Some (Some (Num 800))
   \<and> app stage1 \<noteq> None
   \<and> map_option style_width
       (result_app (updateSize (stage1\<lparr>props := (props stage1)\<lparr>width := Num 300\<rparr>\<rparr>)))
       = Some (Some (Num 300))"
proof -
  have "map_option (\<lambda>a. lookup (ctor_options a) ''autoDensity'')
       (result_app (componentDidMount stage2)) = Some (Bool False)
   \<and> map_option style_width (result_app (componentDidMount stage2)) = Some (Some (Num 800))
   \<and> app stage1 \<noteq> None
   \<and> map_option style_width
       (result_app (updateSize (stage1\<lparr>props := (props stage1)\<lparr>width := Num 300\<rparr>\<rparr>)))
       = Some (Some (Num 300))"
    by code_simp
  with autoDensity_forced_off_yet_css_sized [of stage2 "the (app stage1)"]
    autoDensity_forced_off_yet_css_sized
      [of "stage1\<lparr>props := (props stage1)\<lparr>width := Num 300\<rparr>\<rparr>" "the (app stage1)"]
  show ?thesis
    by blast
qed

text \<open>
  Claim C10. \<^verbatim>\<open>renderStage\<close> returns the Stage as it found it, with no call made, exactly
  when \<^verbatim>\<open>raf\<close> is true or \<^verbatim>\<open>renderOnComponentChange\<close> is false; under the default props
  (\<^verbatim>\<open>raf = true\<close>) every call of it is such a no-op.
\<close>

theorem renderStage_idle:
  "((renderStage st = Inr st) = (raf (props st) \<or> \<not> renderOnComponentChange (props st)))
   \<and> renderStage (st\<lparr>props := defaultProps\<rparr>) = Inr (st\<lparr>props := defaultProps\<rparr>)"
  using emit_changes [of st]
  by (auto simp: renderStage_def emit_def Let_def defaultProps_def split: option.splits)

theorem renderStage_idle_witness:
  "renderStage (stage1\<lparr>props := defaultProps\<rparr>) = Inr (stage1\<lparr>props := defaultProps\<rparr>)
   \<and> raf (props (stage1\<lparr>props := defaultProps\<rparr>))
   \<and> renderStage stage1 \<noteq> Inr stage1"
proof -
  have "raf (props (stage1\<lparr>props := defaultProps\<rparr>))"
    "\<not> raf (props stage1)" "renderOnComponentChange (props stage1)"
    by code_simp+
  with renderStage_idle [of stage1] renderStage_idle [of "stage1\<lparr>props := defaultProps\<rparr>"]
  show ?thesis
    by simp
qed

section \<open>Properties of the reconciliation core\<close>






lemma applyProps_errors: "\<exists>es c. applyProps known k prev nxt = (es, c)"
  by (cases "applyProps known k prev nxt") simp













end
